theory Spec2Isabelle
  imports Main "HOL-Library.AList" "HOL-Library.Multiset"
begin

section \<open>Go maps and the order of a range loop\<close>

text \<open>
  A Go map \<^verbatim>\<open>map[K]V\<close> is a finite set of entries with pairwise different keys.
  It is modelled as an association list; \<open>wf_gomap\<close> says that the keys are
  pairwise different. A \<^verbatim>\<open>range\<close> loop over a map visits every entry once,
  in an order the runtime chooses. That choice is the parameter \<open>rng\<close> of the
  functions below: \<open>rng m\<close> is the list of the entries of \<open>m\<close> in the order the loop
  visits them, and \<open>range_visits_once rng m\<close> says it is a rearrangement of \<open>m\<close>.
  The properties are proved for every such choice.
\<close>

type_synonym ('k, 'v) gomap = "('k \<times> 'v) list"

type_synonym ('k, 'v) range_order = "('k, 'v) gomap \<Rightarrow> ('k, 'v) gomap"

definition wf_gomap :: "('k, 'v) gomap \<Rightarrow> bool" where
  "wf_gomap m = distinct (map fst m)"

definition range_visits_once :: "('k, 'v) range_order \<Rightarrow> ('k, 'v) gomap \<Rightarrow> bool" where
  "range_visits_once rng m = (mset (rng m) = mset m)"

text \<open>A nil pointer dereference panics; the panic is a value of the model.\<close>

datatype fault = NilPointerDereference

section \<open>The topic map (topic\_map.go)\<close>

type_synonym MatchTopicFunc = "string \<Rightarrow> string \<Rightarrow> bool"

definition defaultMatchTopic :: MatchTopicFunc where
  "defaultMatchTopic topicReceived topicFunction = (topicReceived = topicFunction)"

text \<open>
  The struct \<^verbatim>\<open>TopicMap\<close>. The field \<^verbatim>\<open>lookup\<close> is a pointer to a map
  (\<open>None\<close> is the nil pointer), \<^verbatim>\<open>matchFunc\<close> is a function value (\<open>None\<close> is nil).
  The lock is left out: the model is of one call at a time.
\<close>

record TopicMap =
  lookup :: "(string, string list) gomap option"
  matchFunc :: "MatchTopicFunc option"

definition NewTopicMap :: "MatchTopicFunc option \<Rightarrow> TopicMap" where
  "NewTopicMap mf =
     \<lparr>lookup = Some [],
      matchFunc = Some (case mf of None \<Rightarrow> defaultMatchTopic | Some f \<Rightarrow> f)\<rparr>"

text \<open>
  The loop of \<^verbatim>\<open>Match\<close>: \<open>vals\<close> is the slice \<^verbatim>\<open>values\<close>, to which the
  handler list of each matching key is appended.
\<close>

fun Match_loop ::
  "MatchTopicFunc \<Rightarrow> string \<Rightarrow> (string \<times> string list) list \<Rightarrow> string list \<Rightarrow> string list"
where
  "Match_loop mf topicName [] vals = vals"
| "Match_loop mf topicName ((key, functions) # rest) vals =
     Match_loop mf topicName rest (if mf topicName key then vals @ functions else vals)"

definition activeMatchFunc :: "TopicMap \<Rightarrow> MatchTopicFunc" where
  "activeMatchFunc t = (case matchFunc t of None \<Rightarrow> defaultMatchTopic | Some f \<Rightarrow> f)"

definition Match ::
  "(string, string list) range_order \<Rightarrow> TopicMap \<Rightarrow> string \<Rightarrow> fault + string list"
where
  "Match rng t topicName =
     (case lookup t of
        None \<Rightarrow> Inl NilPointerDereference
      | Some m \<Rightarrow> Inr (Match_loop (activeMatchFunc t) topicName (rng m) []))"

definition Sync :: "TopicMap \<Rightarrow> (string, string list) gomap option \<Rightarrow> TopicMap" where
  "Sync t updated = t\<lparr>lookup := updated\<rparr>"

fun Topics_loop :: "(string \<times> string list) list \<Rightarrow> string list \<Rightarrow> string list" where
  "Topics_loop [] topics = topics"
| "Topics_loop ((tp, functions) # rest) topics = Topics_loop rest (topics @ [tp])"

definition Topics ::
  "(string, string list) range_order \<Rightarrow> TopicMap \<Rightarrow> fault + string list"
where
  "Topics rng t =
     (case lookup t of
        None \<Rightarrow> Inl NilPointerDereference
      | Some m \<Rightarrow> Inr (Topics_loop (rng m) []))"

section \<open>HTTP headers, requests and responses (net/http)\<close>

text \<open>
  \<^verbatim>\<open>http.Header\<close> is \<^verbatim>\<open>map[string][]string\<close>. Its methods \<^verbatim>\<open>Get\<close>,
  \<^verbatim>\<open>Set\<close> and \<^verbatim>\<open>Add\<close> put the key into canonical form first
  (\<^verbatim>\<open>textproto.CanonicalMIMEHeaderKey\<close>, of the standard library): that function is
  the parameter \<open>cn\<close>. \<^verbatim>\<open>Get\<close> returns the first value stored under the key, or the
  empty string; \<^verbatim>\<open>Set\<close> replaces the values by the one given; \<^verbatim>\<open>Add\<close> appends to
  them.
\<close>

type_synonym Header = "(string, string list) gomap"

definition Header_Get :: "(string \<Rightarrow> string) \<Rightarrow> Header \<Rightarrow> string \<Rightarrow> string" where
  "Header_Get cn h key =
     (case map_of h (cn key) of None \<Rightarrow> [] | Some [] \<Rightarrow> [] | Some (v # _) \<Rightarrow> v)"

definition Header_Set :: "(string \<Rightarrow> string) \<Rightarrow> Header \<Rightarrow> string \<Rightarrow> string \<Rightarrow> Header" where
  "Header_Set cn h key v = AList.update (cn key) [v] h"

definition Header_Add :: "(string \<Rightarrow> string) \<Rightarrow> Header \<Rightarrow> string \<Rightarrow> string \<Rightarrow> Header" where
  "Header_Add cn h key v =
     AList.update (cn key) ((case map_of h (cn key) of None \<Rightarrow> [] | Some vs \<Rightarrow> vs) @ [v]) h"

text \<open>
  Errors. \<open>External\<close> is an error of the standard library (of \<^verbatim>\<open>http.NewRequest\<close>,
  \<^verbatim>\<open>Client.Do\<close> or \<^verbatim>\<open>io.ReadAll\<close>); the others are the errors the invoker makes with
  \<^verbatim>\<open>fmt.Errorf\<close>, three of them wrapping their cause with \<^verbatim>\<open>%w\<close>.
\<close>

datatype err =
    External string
  | NoMessageToSend
  | UnableToReach string err
  | UnableToReadBody err
  | UnableToInvoke string err

primrec wraps :: "err \<Rightarrow> err \<Rightarrow> bool" where
  "wraps (External s) c = (External s = c)"
| "wraps NoMessageToSend c = (NoMessageToSend = c)"
| "wraps (UnableToReach u e) c = (UnableToReach u e = c \<or> wraps e c)"
| "wraps (UnableToReadBody e) c = (UnableToReadBody e = c \<or> wraps e c)"
| "wraps (UnableToInvoke f e) c = (UnableToInvoke f e = c \<or> wraps e c)"

record 'c Request =
  reqMethod :: string
  reqURL :: string
  reqHeader :: Header
  reqBody :: string
  reqContext :: 'c

text \<open>
  What \<^verbatim>\<open>io.ReadAll(res.Body)\<close> gives, and the response of \<^verbatim>\<open>Client.Do\<close>; \<open>resBody\<close>
  is \<open>None\<close> when \<^verbatim>\<open>res.Body\<close> is nil.
\<close>

datatype ReadAll = ReadOK string | ReadFailed err

record Response =
  resStatusCode :: int
  resHeader :: Header
  resBody :: "ReadAll option"

datatype DoResult = DoFailed err | DoOK Response

text \<open>
  The world outside the invoker: the canonical form of header keys, the error of
  \<^verbatim>\<open>http.NewRequest\<close> on a URL it cannot parse (\<open>None\<close>: no error), what the
  HTTP client answers to a request, and the order of a range loop over a header map.
\<close>

record 'c Runtime =
  canon :: "string \<Rightarrow> string"
  newRequestErr :: "string \<Rightarrow> err option"
  clientDo :: "'c Request \<Rightarrow> DoResult"
  rangeOrder :: "(string, string list) range_order"

section \<open>Options (options.go)\<close>

record InvokerOptions =
  sendTopic :: bool
  asyncCallbackURL :: string
  userAgent :: string

type_synonym InvokerOptionFunc = "InvokerOptions \<Rightarrow> InvokerOptions"

definition WithInvokerSendTopic :: "bool \<Rightarrow> InvokerOptionFunc" where
  "WithInvokerSendTopic b = (\<lambda>os. os\<lparr>sendTopic := b\<rparr>)"

definition WithInvokerAsyncCallbackURL :: "string \<Rightarrow> InvokerOptionFunc" where
  "WithInvokerAsyncCallbackURL callbackURL = (\<lambda>os. os\<lparr>asyncCallbackURL := callbackURL\<rparr>)"

definition WithInvokerUserAgent :: "string \<Rightarrow> InvokerOptionFunc" where
  "WithInvokerUserAgent ua = (\<lambda>os. os\<lparr>userAgent := ua\<rparr>)"

record InvokeOptions =
  topic :: string
  asyncCallbackURL :: string
  contentType :: string

type_synonym InvokeOptionFunc = "InvokeOptions \<Rightarrow> InvokeOptions"

definition WithInvokeTopic :: "string \<Rightarrow> InvokeOptionFunc" where
  "WithInvokeTopic tp = (\<lambda>os. os\<lparr>topic := tp\<rparr>)"

definition WithInvokeAsyncCallbackURL :: "string \<Rightarrow> InvokeOptionFunc" where
  "WithInvokeAsyncCallbackURL callbackURL =
     (\<lambda>os. os\<lparr>InvokeOptions.asyncCallbackURL := callbackURL\<rparr>)"

definition WithInvokeContentType :: "string \<Rightarrow> InvokeOptionFunc" where
  "WithInvokeContentType ct = (\<lambda>os. os\<lparr>contentType := ct\<rparr>)"

text \<open>
  \<^verbatim>\<open>o := &InvokeOptions{}; for _, optFn := range opts { optFn(o) }\<close>: the options
  are applied in order to the zero value.
\<close>

definition applyInvokeOptions :: "InvokeOptionFunc list \<Rightarrow> InvokeOptions" where
  "applyInvokeOptions optFns =
     fold (\<lambda>optFn os. optFn os) optFns
       \<lparr>topic = [], asyncCallbackURL = [], contentType = []\<rparr>"

definition applyInvokerOptions :: "InvokerOptionFunc list \<Rightarrow> InvokerOptions" where
  "applyInvokerOptions optFns =
     fold (\<lambda>optFn os. optFn os) optFns
       \<lparr>sendTopic = False, asyncCallbackURL = [], userAgent = []\<rparr>"

section \<open>The invoker (invoker.go)\<close>

text \<open>
  The struct \<^verbatim>\<open>Invoker\<close>, as \<^verbatim>\<open>NewInvoker\<close> makes it: the pointer \<^verbatim>\<open>opts\<close>
  is not nil (the field is not exported, so no other package can set it) and neither
  is \<^verbatim>\<open>Client\<close>. The client is the field \<open>clientDo\<close> of the runtime; the channel
  \<^verbatim>\<open>Responses\<close> is the field \<open>Responses\<close> of the effects below.
\<close>

record Invoker =
  PrintResponse :: bool
  PrintRequest :: bool
  GatewayURL :: string
  ContentType :: string
  opts :: InvokerOptions

record 'c InvokerResponse =
  Context :: 'c
  Body :: "string option"
  Header :: "Header option"
  Status :: int
  Error :: "err option"
  Topic :: string
  Function :: string
  Duration :: nat

definition NewInvoker ::
  "string \<Rightarrow> string \<Rightarrow> bool \<Rightarrow> bool \<Rightarrow> InvokerOptionFunc list \<Rightarrow> Invoker"
where
  "NewInvoker gatewayURL ct printResponse printRequest optFns =
     \<lparr>PrintResponse = printResponse, PrintRequest = printRequest,
      GatewayURL = gatewayURL, ContentType = ct, opts = applyInvokerOptions optFns\<rparr>"

text \<open>
  What a call does to the world: the results it sends on the channel
  \<^verbatim>\<open>Responses\<close>, in the order of the sends, and the requests it hands to
  \<^verbatim>\<open>Client.Do\<close>, in the order of the calls. A send on the channel is taken to
  complete (its consumer keeps receiving).
\<close>

record 'c Effects =
  Responses :: "'c InvokerResponse list"
  requests :: "'c Request list"

definition StatusServiceUnavailable :: int where
  "StatusServiceUnavailable = 503"

text \<open>
  The two nested loops of \<^verbatim>\<open>invoke\<close> that copy the caller's headers into the
  request: \<^verbatim>\<open>req.Header.Add(k, value)\<close> for every value of every key.
\<close>

fun addValues :: "(string \<Rightarrow> string) \<Rightarrow> string \<Rightarrow> string list \<Rightarrow> Header \<Rightarrow> Header" where
  "addValues cn k [] rh = rh"
| "addValues cn k (v # vs) rh = addValues cn k vs (Header_Add cn rh k v)"

fun addHeaders :: "(string \<Rightarrow> string) \<Rightarrow> (string \<times> string list) list \<Rightarrow> Header \<Rightarrow> Header" where
  "addHeaders cn [] rh = rh"
| "addHeaders cn ((k, vs) # rest) rh = addHeaders cn rest (addValues cn k vs rh)"

text \<open>
  The request \<^verbatim>\<open>invoke\<close> builds: \<^verbatim>\<open>http.NewRequest\<close> gives a request with an
  empty header; the check of \<^verbatim>\<open>X-Connector\<close> is made on that header, before the
  caller's headers are added.
\<close>

definition buildRequest :: "'c Runtime \<Rightarrow> 'c \<Rightarrow> string \<Rightarrow> string \<Rightarrow> Header \<Rightarrow> 'c Request" where
  "buildRequest rt ctx gwURL reader headers =
     (let rh0 = [];
          rh1 = (if Header_Get (canon rt) rh0 ''X-Connector'' = []
                 then Header_Set (canon rt) rh0 ''X-Connector'' ''connector-sdk''
                 else rh0);
          rh2 = addHeaders (canon rt) (rangeOrder rt headers) rh1
      in \<lparr>reqMethod = ''POST'', reqURL = gwURL, reqHeader = rh2, reqBody = reader,
          reqContext = ctx\<rparr>)"

text \<open>
  \<^verbatim>\<open>invoke\<close> returns the body, the status code, the response header and the error,
  here with the effects after it.
\<close>

definition invoke ::
  "'c Runtime \<Rightarrow> 'c Effects \<Rightarrow> 'c \<Rightarrow> string \<Rightarrow> string \<Rightarrow> Header
     \<Rightarrow> 'c Effects \<times> string option \<times> int \<times> Header option \<times> err option"
where
  "invoke rt eff ctx gwURL reader headers =
     (case newRequestErr rt gwURL of
        Some e \<Rightarrow> (eff, None, StatusServiceUnavailable, None, Some e)
      | None \<Rightarrow>
          (let req = buildRequest rt ctx gwURL reader headers;
               eff' = eff\<lparr>requests := requests eff @ [req]\<rparr>
           in case clientDo rt req of
                DoFailed e \<Rightarrow>
                  (eff', None, StatusServiceUnavailable, None, Some (UnableToReach gwURL e))
              | DoOK res \<Rightarrow>
                  (case resBody res of
                     None \<Rightarrow> (eff', None, resStatusCode res, Some (resHeader res), None)
                   | Some (ReadFailed e) \<Rightarrow>
                       (eff', None, StatusServiceUnavailable, None, Some (UnableToReadBody e))
                   | Some (ReadOK bytesOut) \<Rightarrow>
                       (eff', Some bytesOut, resStatusCode res, Some (resHeader res), None))))"

text \<open>
  The headers \<^verbatim>\<open>Invoke\<close> hands to \<^verbatim>\<open>invoke\<close>: the caller's (an empty map if
  nil), then the \<^verbatim>\<open>Set\<close> calls in the order of the source.
\<close>

definition prepareHeaders ::
  "(string \<Rightarrow> string) \<Rightarrow> Invoker \<Rightarrow> InvokeOptions \<Rightarrow> Header option \<Rightarrow> Header"
where
  "prepareHeaders cn i os headers =
     (let h0 = (case headers of None \<Rightarrow> [] | Some h \<Rightarrow> h);
          h1 = (if userAgent (opts i) \<noteq> []
                then Header_Set cn h0 ''User-Agent'' (userAgent (opts i)) else h0);
          h2 = (if sendTopic (opts i)
                then Header_Set cn h1 ''X-Topic'' (topic os) else h1);
          h3 = (if InvokeOptions.asyncCallbackURL os \<noteq> []
                then Header_Set cn h2 ''X-Callback-Url'' (InvokeOptions.asyncCallbackURL os)
                else if InvokerOptions.asyncCallbackURL (opts i) \<noteq> []
                then Header_Set cn h2 ''X-Callback-Url'' (InvokerOptions.asyncCallbackURL (opts i))
                else h2);
          h4 = (if contentType os \<noteq> []
                then Header_Set cn h3 ''Content-Type'' (contentType os)
                else if ContentType i \<noteq> []
                then Header_Set cn h3 ''Content-Type'' (ContentType i)
                else h3)
      in h4)"

text \<open>
  \<^verbatim>\<open>Invoke\<close>. \<open>message\<close> is a pointer to the payload (\<open>None\<close> is nil), \<open>headers\<close>
  a map (\<open>None\<close> is nil), \<open>dur\<close> what \<^verbatim>\<open>time.Since(start)\<close> measures. With
  \<^verbatim>\<open>PrintRequest\<close> set, the log line evaluates \<^verbatim>\<open>string(*message)\<close>, which panics
  on a nil pointer. The \<^verbatim>\<open>Set\<close> calls change the caller's map when it is not nil:
  the result holds the map as the caller finds it after the call, then the result
  returned.
\<close>

definition Invoke ::
  "'c Runtime \<Rightarrow> nat \<Rightarrow> Invoker \<Rightarrow> 'c Effects \<Rightarrow> 'c \<Rightarrow> string \<Rightarrow> string option
     \<Rightarrow> Header option \<Rightarrow> InvokeOptionFunc list
     \<Rightarrow> fault + ('c Effects \<times> Header option \<times> 'c InvokerResponse)"
where
  "Invoke rt dur i eff ctx functionName message headers optFns =
     (let os = applyInvokeOptions optFns;
          gwURL = GatewayURL i @ ''/'' @ functionName;
          reader = (case message of None \<Rightarrow> [] | Some b \<Rightarrow> b);
          tp = topic os
      in if PrintRequest i \<and> message = None then Inl NilPointerDereference
         else
           (let hs = prepareHeaders (canon rt) i os headers;
                headers' = (case headers of None \<Rightarrow> None | Some _ \<Rightarrow> Some hs)
            in case invoke rt eff ctx gwURL reader hs of
                 (eff', body, statusCode, header, Some e) \<Rightarrow>
                   (let invokerResponse =
                      \<lparr>Context = ctx, Body = None, Header = None, Status = statusCode,
                       Error = Some (UnableToInvoke functionName e), Topic = [],
                       Function = functionName, Duration = dur\<rparr>
                    in Inr (eff'\<lparr>Responses := Responses eff' @ [invokerResponse]\<rparr>,
                            headers', invokerResponse))
               | (eff', body, statusCode, header, None) \<Rightarrow>
                   (let invokerResponse =
                      \<lparr>Context = ctx, Body = body, Header = header, Status = statusCode,
                       Error = None, Topic = tp,
                       Function = functionName, Duration = dur\<rparr>
                    in Inr (eff'\<lparr>Responses := Responses eff' @ [invokerResponse]\<rparr>,
                            headers', invokerResponse))))"

text \<open>
  The loop of \<^verbatim>\<open>InvokeWithTopic\<close> over the matched functions; \<open>durs n\<close> is the
  time the \<open>n\<close>-th invocation takes. The result of each \<^verbatim>\<open>Invoke\<close> is dropped; a
  panic ends the loop.
\<close>

fun InvokeWithTopic_loop ::
  "'c Runtime \<Rightarrow> (nat \<Rightarrow> nat) \<Rightarrow> Invoker \<Rightarrow> 'c \<Rightarrow> string option \<Rightarrow> InvokeOptionFunc list
     \<Rightarrow> string list \<Rightarrow> nat \<Rightarrow> Header option \<Rightarrow> 'c Effects \<Rightarrow> fault + 'c Effects"
where
  "InvokeWithTopic_loop rt durs i ctx message optFns [] n headers eff = Inr eff"
| "InvokeWithTopic_loop rt durs i ctx message optFns (matchedFunction # rest) n headers eff =
     (case Invoke rt (durs n) i eff ctx matchedFunction message headers optFns of
        Inl f \<Rightarrow> Inl f
      | Inr (eff', headers', r) \<Rightarrow>
          InvokeWithTopic_loop rt durs i ctx message optFns rest (Suc n) headers' eff')"

text \<open>
  \<^verbatim>\<open>InvokeWithTopic\<close>. The condition \<^verbatim>\<open>len(*message) == 0 || topicMap == nil\<close>
  dereferences \<open>message\<close> first. It returns nothing: the result is the effects.
\<close>

definition InvokeWithTopic ::
  "'c Runtime \<Rightarrow> (nat \<Rightarrow> nat) \<Rightarrow> Invoker \<Rightarrow> 'c Effects \<Rightarrow> 'c \<Rightarrow> TopicMap option \<Rightarrow> string
     \<Rightarrow> string option \<Rightarrow> Header option \<Rightarrow> InvokeOptionFunc list \<Rightarrow> fault + 'c Effects"
where
  "InvokeWithTopic rt durs i eff ctx topicMap tp message headers optFns =
     (case message of
        None \<Rightarrow> Inl NilPointerDereference
      | Some b \<Rightarrow>
          if length b = 0 \<or> topicMap = None
          then Inr (eff\<lparr>Responses := Responses eff @
                      [\<lparr>Context = ctx, Body = None, Header = None, Status = 0,
                        Error = Some NoMessageToSend, Topic = [], Function = [],
                        Duration = 0\<rparr>]\<rparr>)
          else
            (case topicMap of
               None \<Rightarrow> Inl NilPointerDereference
             | Some tm \<Rightarrow>
                 (case Match (rangeOrder rt) tm tp of
                    Inl f \<Rightarrow> Inl f
                  | Inr matchedFunctions \<Rightarrow>
                      InvokeWithTopic_loop rt durs i ctx message (optFns @ [WithInvokeTopic tp])
                        matchedFunctions 0 headers eff)))"

section \<open>Notions the properties are stated with\<close>

text \<open>
  \<^verbatim>\<open>http.Header.Values\<close>: the values stored under a key, in order; none if the key
  is not in the map. A header with no value is not written on the wire, so a header
  is absent from a request exactly when its values are the empty list.
\<close>

definition Header_Values :: "(string \<Rightarrow> string) \<Rightarrow> Header \<Rightarrow> string \<Rightarrow> string list" where
  "Header_Values cn h key = (case map_of h (cn key) of None \<Rightarrow> [] | Some vs \<Rightarrow> vs)"

text \<open>
  The header names the invoker writes are in canonical form already, so the
  canonical form of each is itself.
\<close>

definition canonical_names :: "(string \<Rightarrow> string) \<Rightarrow> bool" where
  "canonical_names cn =
     (cn ''User-Agent'' = ''User-Agent'' \<and> cn ''X-Topic'' = ''X-Topic''
      \<and> cn ''X-Callback-Url'' = ''X-Callback-Url'' \<and> cn ''Content-Type'' = ''Content-Type''
      \<and> cn ''X-Connector'' = ''X-Connector'')"

text \<open>
  A header map whose keys are all in canonical form, as every map is that was filled
  through \<^verbatim>\<open>Set\<close> and \<^verbatim>\<open>Add\<close>.
\<close>

definition canonical_keys :: "(string \<Rightarrow> string) \<Rightarrow> Header \<Rightarrow> bool" where
  "canonical_keys cn h = (\<forall>k \<in> fst ` set h. cn k = k)"

definition callers_headers_ok :: "(string \<Rightarrow> string) \<Rightarrow> Header option \<Rightarrow> bool" where
  "callers_headers_ok cn headers =
     (case headers of None \<Rightarrow> True | Some h \<Rightarrow> wf_gomap h \<and> canonical_keys cn h)"

text \<open>
  A runtime of Go: the invoker's header names are canonical, and a range loop visits
  every entry of a map once.
\<close>

definition go_runtime :: "'c Runtime \<Rightarrow> bool" where
  "go_runtime rt = (canonical_names (canon rt) \<and> (\<forall>m. range_visits_once (rangeOrder rt) m))"

text \<open>
  Fixtures for the examples: a runtime whose client gives the same answer to every
  request, with every URL accepted, keys left as they are and maps visited in the
  order of the list; the effects before any call; three answers of a server.
\<close>

definition stubRuntime :: "DoResult \<Rightarrow> unit Runtime" where
  "stubRuntime answer =
     \<lparr>canon = (\<lambda>k. k), newRequestErr = (\<lambda>u. None), clientDo = (\<lambda>req. answer),
      rangeOrder = (\<lambda>m. m)\<rparr>"

definition noEffects :: "unit Effects" where
  "noEffects = \<lparr>Responses = [], requests = []\<rparr>"

definition answer200 :: DoResult where
  "answer200 = DoOK \<lparr>resStatusCode = 200, resHeader = [], resBody = Some (ReadOK ''ok'')\<rparr>"

definition answer404 :: DoResult where
  "answer404 = DoOK \<lparr>resStatusCode = 404, resHeader = [], resBody = Some (ReadOK ''not found'')\<rparr>"

definition unreachable :: DoResult where
  "unreachable = DoFailed (External ''dial tcp: no such host'')"

definition plainInvoker :: Invoker where
  "plainInvoker = NewInvoker ''http://gw/function'' [] False False []"

definition forwardingInvoker :: Invoker where
  "forwardingInvoker =
     NewInvoker ''http://gw/function'' [] False False [WithInvokerSendTopic True]"

definition loggingInvoker :: Invoker where
  "loggingInvoker = NewInvoker ''http://gw/function'' [] False True []"

text \<open>
  The request a call of \<^verbatim>\<open>Invoke\<close> hands to the client when it gets that far: built
  by \<^verbatim>\<open>invoke\<close> from the URL, the payload and the prepared headers.
\<close>

definition outboundRequest ::
  "'c Runtime \<Rightarrow> Invoker \<Rightarrow> 'c \<Rightarrow> string \<Rightarrow> string option \<Rightarrow> Header option
     \<Rightarrow> InvokeOptionFunc list \<Rightarrow> 'c Request"
where
  "outboundRequest rt i ctx functionName message headers optFns =
     buildRequest rt ctx (GatewayURL i @ ''/'' @ functionName)
       (case message of None \<Rightarrow> [] | Some b \<Rightarrow> b)
       (prepareHeaders (canon rt) i (applyInvokeOptions optFns) headers)"

text \<open>The values the caller's own header map holds under a name (none if the map is nil).\<close>

definition callersValues :: "(string \<Rightarrow> string) \<Rightarrow> Header option \<Rightarrow> string \<Rightarrow> string list" where
  "callersValues cn headers key =
     Header_Values cn (case headers of None \<Rightarrow> [] | Some h \<Rightarrow> h) key"

definition ok_headers :: "(string \<Rightarrow> string) \<Rightarrow> Header \<Rightarrow> bool" where
  "ok_headers cn h = (wf_gomap h \<and> canonical_keys cn h)"

text \<open>
  An invoker with a default content type and a default callback URL, and the clock
  of a loop whose invocations take no time.
\<close>

definition jsonInvoker :: Invoker where
  "jsonInvoker =
     NewInvoker ''http://gw/function'' ''application/json'' False False
       [WithInvokerAsyncCallbackURL ''http://default-callback'']"

definition instant :: "nat \<Rightarrow> nat" where
  "instant n = 0"

text \<open>
  A runtime that puts one key that is not canonical, \<open>content-type\<close>, into its
  canonical form and leaves every other key as it is.
\<close>

definition foldingRuntime :: "unit Runtime" where
  "foldingRuntime =
     \<lparr>canon = (\<lambda>k. if k = ''content-type'' then ''Content-Type'' else k),
      newRequestErr = (\<lambda>u. None), clientDo = (\<lambda>req. answer200),
      rangeOrder = (\<lambda>m. m)\<rparr>"

section \<open>Properties of the topic map\<close>

lemma Match_loop_concat:
  "Match_loop mf tn es vals =
     vals @ concat (map snd (filter (\<lambda>e. mf tn (fst e)) es))"
  by (induction es arbitrary: vals) auto

lemma Topics_loop_keys: "Topics_loop es topics = topics @ map fst es"
  by (induction es arbitrary: topics) auto

lemma range_keys:
  assumes "range_visits_once rng m"
  shows "mset (map fst (rng m)) = mset (map fst m)"
proof -
  have "mset (map fst (rng m)) = image_mset fst (mset (rng m))" by simp
  also have "\<dots> = image_mset fst (mset m)"
    using assms by (simp add: range_visits_once_def)
  finally show ?thesis by simp
qed

lemma range_distinct_keys:
  assumes "range_visits_once rng m" and "wf_gomap m"
  shows "distinct (map fst (rng m))"
  using range_keys [OF assms(1)] assms(2)
  by (metis wf_gomap_def mset_eq_imp_distinct_iff)

lemma range_set:
  assumes "range_visits_once rng m"
  shows "set (rng m) = set m"
  using assms by (metis range_visits_once_def mset_eq_setD)

lemma range_map_of:
  assumes "range_visits_once rng m" and "wf_gomap m"
  shows "map_of (rng m) = map_of m"
proof -
  have "distinct (map fst (rng m))"
    using assms by (rule range_distinct_keys)
  moreover have "distinct (map fst m)"
    using assms(2) by (simp add: wf_gomap_def)
  moreover have "set (rng m) = set m"
    using assms(1) by (rule range_set)
  ultimately show ?thesis
    by (simp add: map_of_inject_set)
qed

lemma concat_equal_key:
  assumes "distinct (map fst es)"
  shows "concat (map snd (filter (\<lambda>e. k = fst e) es)) =
           (case map_of es k of None \<Rightarrow> [] | Some fs \<Rightarrow> fs)"
  using assms
proof (induction es)
  case Nil
  then show ?case by simp
next
  case (Cons e es)
  obtain k' fs' where e: "e = (k', fs')" by (cases e)
  show ?case
  proof (cases "k = k'")
    case True
    with Cons.prems e have "k \<notin> fst ` set es" by auto
    then have "filter (\<lambda>e. k = fst e) es = []"
      by (auto simp: filter_empty_conv)
    with True e show ?thesis by simp
  next
    case False
    with Cons e show ?thesis by simp
  qed
qed

lemma mset_concat_filter:
  "mset (concat (map snd (filter P es))) =
     (\<Sum>e\<leftarrow>es. if P e then mset (snd e) else {#})"
  by (induction es) auto

lemma sum_list_mset_cong:
  fixes f :: "'a \<Rightarrow> 'b multiset"
  assumes "mset xs = mset ys"
  shows "(\<Sum>e\<leftarrow>xs. f e) = (\<Sum>e\<leftarrow>ys. f e)"
proof -
  have "(\<Sum>e\<leftarrow>xs. f e) = sum_mset (image_mset f (mset xs))"
    by (metis mset_map sum_mset_sum_list)
  also have "\<dots> = sum_mset (image_mset f (mset ys))"
    using assms by simp
  also have "\<dots> = (\<Sum>e\<leftarrow>ys. f e)"
    by (metis mset_map sum_mset_sum_list)
  finally show ?thesis .
qed

lemma activeMatchFunc_Sync: "activeMatchFunc (Sync t updated) = activeMatchFunc t"
  by (simp add: activeMatchFunc_def Sync_def)

lemma Match_Sync:
  "Match rng (Sync t (Some M)) T =
     Inr (concat (map snd (filter (\<lambda>e. activeMatchFunc t T (fst e)) (rng M))))"
  by (simp add: Match_def Sync_def Match_loop_concat activeMatchFunc_def)

text \<open>
  C1. After \<open>Sync\<close> installed the mapping \<open>M\<close>, \<open>Match T\<close> returns (it does not
  panic) the concatenation of the whole handler lists \<open>M[k]\<close>, each in its stored order,
  of the keys \<open>k\<close> on which the active match function holds for \<open>(T, k)\<close>, the keys
  taken in the order the range loop visits them. Nothing is removed: as a multiset the
  result is the sum of the handler lists of the matching entries of \<open>M\<close>, so a handler
  that occurs twice in a list, or under two matching keys, occurs that often in the
  result. If no key matches, the result is the empty sequence.
\<close>

theorem Match_after_Sync:
  assumes "range_visits_once rng M"
  shows "\<exists>r. Match rng (Sync t (Some M)) T = Inr r
           \<and> r = concat (map snd (filter (\<lambda>e. activeMatchFunc t T (fst e)) (rng M)))
           \<and> mset r = (\<Sum>e\<leftarrow>M. if activeMatchFunc t T (fst e) then mset (snd e) else {#})
           \<and> ((\<forall>e \<in> set M. \<not> activeMatchFunc t T (fst e)) \<longrightarrow> r = [])"
proof -
  let ?P = "\<lambda>e. activeMatchFunc t T (fst e)"
  let ?r = "concat (map snd (filter ?P (rng M)))"
  have m: "mset (rng M) = mset M"
    using assms by (simp add: range_visits_once_def)
  have "mset ?r = (\<Sum>e\<leftarrow>rng M. if ?P e then mset (snd e) else {#})"
    by (rule mset_concat_filter)
  also have "\<dots> = (\<Sum>e\<leftarrow>M. if ?P e then mset (snd e) else {#})"
    using m by (rule sum_list_mset_cong)
  finally have count: "mset ?r = (\<Sum>e\<leftarrow>M. if ?P e then mset (snd e) else {#})" .
  have none: "(\<forall>e \<in> set M. \<not> ?P e) \<longrightarrow> ?r = []"
  proof
    assume "\<forall>e \<in> set M. \<not> ?P e"
    then have "\<forall>e \<in> set (rng M). \<not> ?P e"
      using range_set [OF assms] by simp
    then have "filter ?P (rng M) = []"
      by (simp add: filter_empty_conv)
    then show "?r = []" by simp
  qed
  show ?thesis
    using Match_Sync [of rng t M T] count none by blast
qed

theorem Match_after_Sync_witness:
  "range_visits_once rev [(''a'', [''f'', ''g'', ''f'']), (''b'', [''h'']), (''a2'', [''f''])]
   \<and> Match rev
        (Sync (NewTopicMap (Some (\<lambda>x k. take 1 x = take 1 k)))
           (Some [(''a'', [''f'', ''g'', ''f'']), (''b'', [''h'']), (''a2'', [''f''])]))
        ''a''
      = Inr [''f'', ''f'', ''g'', ''f'']"
proof -
  let ?M = "[(''a'', [''f'', ''g'', ''f'']), (''b'', [''h'']), (''a2'', [''f''])]"
  have h: "range_visits_once rev ?M"
    by (simp add: range_visits_once_def)
  from Match_after_Sync [OF h, of "NewTopicMap (Some (\<lambda>x k. take 1 x = take 1 k))" "''a''"]
  have "Match rev (Sync (NewTopicMap (Some (\<lambda>x k. take 1 x = take 1 k))) (Some ?M)) ''a''
          = Inr (concat (map snd (filter
              (\<lambda>e. activeMatchFunc (NewTopicMap (Some (\<lambda>x k. take 1 x = take 1 k))) ''a'' (fst e))
              (rev ?M))))"
    by blast
  then show ?thesis
    using h by (simp add: activeMatchFunc_def NewTopicMap_def)
qed

lemma Topics_Sync: "Topics rng (Sync t (Some M)) = Inr (map fst (rng M))"
  by (simp add: Topics_def Sync_def Topics_loop_keys)

lemma set_concat_filter_subset:
  "set (concat (map snd (filter P es))) \<subseteq> (\<Union>e \<in> set es. set (snd e))"
  by (induction es) auto

text \<open>
  C4. \<open>Sync\<close> replaces the whole mapping: after \<open>Sync M'\<close> the table is \<open>M'\<close>
  (the match function is kept), whatever the table was before. \<open>Topics\<close> returns the
  keys of \<open>M'\<close>, each once, in the order the range visits them, so a key that \<open>M'\<close>
  does not have is not returned. \<open>Match\<close> is the function of \<open>M'\<close> and the match
  function alone: it returns what it returns on a table that never held anything
  but \<open>M'\<close>, and every handler it returns stands in a list of \<open>M'\<close>.
\<close>

theorem Sync_replaces_table:
  assumes "wf_gomap M'" and "range_visits_once rng M'"
  shows "lookup (Sync t (Some M')) = Some M'
         \<and> matchFunc (Sync t (Some M')) = matchFunc t
         \<and> (\<exists>ks. Topics rng (Sync t (Some M')) = Inr ks
                \<and> distinct ks \<and> set ks = fst ` set M' \<and> length ks = length M')
         \<and> (\<exists>r. Match rng (Sync t (Some M')) T = Inr r
                \<and> Match rng \<lparr>lookup = Some M', matchFunc = matchFunc t\<rparr> T = Inr r
                \<and> set r \<subseteq> (\<Union>e \<in> set M'. set (snd e)))"
proof -
  have fields: "lookup (Sync t (Some M')) = Some M' \<and> matchFunc (Sync t (Some M')) = matchFunc t"
    by (simp add: Sync_def)
  let ?ks = "map fst (rng M')"
  have "distinct ?ks"
    using assms(2) assms(1) by (rule range_distinct_keys)
  moreover have "set ?ks = fst ` set M'"
    using range_set [OF assms(2)] by simp
  moreover have "length ?ks = length M'"
    using range_keys [OF assms(2)] by (metis length_map size_mset)
  ultimately have topics: "\<exists>ks. Topics rng (Sync t (Some M')) = Inr ks
       \<and> distinct ks \<and> set ks = fst ` set M' \<and> length ks = length M'"
    using Topics_Sync [of rng t M'] by blast
  let ?r = "concat (map snd (filter (\<lambda>e. activeMatchFunc t T (fst e)) (rng M')))"
  have fresh: "Match rng \<lparr>lookup = Some M', matchFunc = matchFunc t\<rparr> T = Inr ?r"
    by (simp add: Match_def Match_loop_concat activeMatchFunc_def)
  have "set ?r \<subseteq> (\<Union>e \<in> set (rng M'). set (snd e))"
    by (rule set_concat_filter_subset)
  then have "set ?r \<subseteq> (\<Union>e \<in> set M'. set (snd e))"
    using range_set [OF assms(2)] by simp
  then have match: "\<exists>r. Match rng (Sync t (Some M')) T = Inr r
       \<and> Match rng \<lparr>lookup = Some M', matchFunc = matchFunc t\<rparr> T = Inr r
       \<and> set r \<subseteq> (\<Union>e \<in> set M'. set (snd e))"
    using Match_Sync [of rng t M' T] fresh by blast
  show ?thesis
    using fields topics match by blast
qed

theorem Sync_replaces_table_witness:
  "wf_gomap [(''new'', [''n.fn''])] \<and> range_visits_once (\<lambda>m. m) [(''new'', [''n.fn''])]
   \<and> Topics (\<lambda>m. m)
        (Sync \<lparr>lookup = Some [(''old'', [''o.fn'']), (''new'', [''x.fn''])], matchFunc = None\<rparr>
           (Some [(''new'', [''n.fn''])]))
      = Inr [''new'']
   \<and> Match (\<lambda>m. m)
        (Sync \<lparr>lookup = Some [(''old'', [''o.fn'']), (''new'', [''x.fn''])], matchFunc = None\<rparr>
           (Some [(''new'', [''n.fn''])])) ''old''
      = Inr []
   \<and> Match (\<lambda>m. m)
        (Sync \<lparr>lookup = Some [(''old'', [''o.fn'']), (''new'', [''x.fn''])], matchFunc = None\<rparr>
           (Some [(''new'', [''n.fn''])])) ''new''
      = Inr [''n.fn'']"
proof -
  let ?M = "[(''new'', [''n.fn''])]"
  let ?t = "\<lparr>lookup = Some [(''old'', [''o.fn'']), (''new'', [''x.fn''])], matchFunc = None\<rparr>"
  have w: "wf_gomap ?M"
    by (simp add: wf_gomap_def)
  have v: "range_visits_once (\<lambda>m. m) ?M"
    by (simp add: range_visits_once_def)
  have fresh_old: "Match (\<lambda>m. m) \<lparr>lookup = Some ?M, matchFunc = matchFunc ?t\<rparr> ''old'' = Inr []"
    by (simp add: Match_def activeMatchFunc_def defaultMatchTopic_def)
  have fresh_new: "Match (\<lambda>m. m) \<lparr>lookup = Some ?M, matchFunc = matchFunc ?t\<rparr> ''new'' = Inr [''n.fn'']"
    by (simp add: Match_def activeMatchFunc_def defaultMatchTopic_def)
  from Sync_replaces_table [OF w v, of ?t "''old''"]
  obtain r where r: "Match (\<lambda>m. m) (Sync ?t (Some ?M)) ''old'' = Inr r"
      "Match (\<lambda>m. m) \<lparr>lookup = Some ?M, matchFunc = matchFunc ?t\<rparr> ''old'' = Inr r"
    by blast
  from r(2) fresh_old have "r = []" by (simp only: sum.inject)
  with r(1) have old: "Match (\<lambda>m. m) (Sync ?t (Some ?M)) ''old'' = Inr []" by (simp only:)
  from Sync_replaces_table [OF w v, of ?t "''new''"]
  obtain ks r' where r': "Match (\<lambda>m. m) (Sync ?t (Some ?M)) ''new'' = Inr r'"
      "Match (\<lambda>m. m) \<lparr>lookup = Some ?M, matchFunc = matchFunc ?t\<rparr> ''new'' = Inr r'"
    and ks: "Topics (\<lambda>m. m) (Sync ?t (Some ?M)) = Inr ks" "set ks = fst ` set ?M" "length ks = length ?M"
    by blast
  from r'(2) fresh_new have "r' = [''n.fn'']" by (simp only: sum.inject)
  with r'(1) have new: "Match (\<lambda>m. m) (Sync ?t (Some ?M)) ''new'' = Inr [''n.fn'']" by (simp only:)
  from ks(2,3) have "ks = [''new'']"
    by (cases ks) auto
  with ks(1) have t: "Topics (\<lambda>m. m) (Sync ?t (Some ?M)) = Inr [''new'']" by (simp only:)
  show ?thesis
    using w v t old new by (intro conjI)
qed

text \<open>
  C9. A table whose match function is unset matches by exact string equality. If the
  struct holds nil, \<open>Match\<close> substitutes \<open>defaultMatchTopic\<close>; \<open>NewTopicMap\<close>
  given nil stores \<open>defaultMatchTopic\<close> itself, so the field is never nil there. In
  both cases \<open>Match T\<close> on the table \<open>M\<close> returns the handler list stored under the key
  \<open>T\<close> itself, and the empty sequence if \<open>T\<close> is not a key of \<open>M\<close>.
\<close>

theorem Match_default_is_equality:
  assumes "wf_gomap M" and "range_visits_once rng M"
  shows "Match rng \<lparr>lookup = Some M, matchFunc = None\<rparr> T
           = Inr (case map_of M T of None \<Rightarrow> [] | Some fs \<Rightarrow> fs)
         \<and> matchFunc (NewTopicMap None) \<noteq> None
         \<and> Match rng (Sync (NewTopicMap None) (Some M)) T
           = Inr (case map_of M T of None \<Rightarrow> [] | Some fs \<Rightarrow> fs)"
proof -
  have d: "distinct (map fst (rng M))"
    using assms(2) assms(1) by (rule range_distinct_keys)
  have eq: "concat (map snd (filter (\<lambda>e. T = fst e) (rng M)))
              = (case map_of M T of None \<Rightarrow> [] | Some fs \<Rightarrow> fs)"
    using concat_equal_key [OF d, of T] range_map_of [OF assms(2) assms(1)] by simp
  have "Match rng \<lparr>lookup = Some M, matchFunc = None\<rparr> T
          = Inr (concat (map snd (filter (\<lambda>e. T = fst e) (rng M))))"
    by (simp add: Match_def Match_loop_concat activeMatchFunc_def defaultMatchTopic_def)
  moreover have "Match rng (Sync (NewTopicMap None) (Some M)) T
          = Inr (concat (map snd (filter (\<lambda>e. T = fst e) (rng M))))"
    by (simp add: Match_Sync activeMatchFunc_def NewTopicMap_def defaultMatchTopic_def)
  moreover have "matchFunc (NewTopicMap None) \<noteq> None"
    by (simp add: NewTopicMap_def)
  ultimately show ?thesis
    using eq by simp
qed

theorem Match_default_is_equality_witness:
  "wf_gomap [(''payment'', [''a.fn''])] \<and> range_visits_once (\<lambda>m. m) [(''payment'', [''a.fn''])]
   \<and> Match (\<lambda>m. m) \<lparr>lookup = Some [(''payment'', [''a.fn''])], matchFunc = None\<rparr> ''payment''
       = Inr [''a.fn'']
   \<and> Match (\<lambda>m. m) \<lparr>lookup = Some [(''payment'', [''a.fn''])], matchFunc = None\<rparr> ''Payment''
       = Inr []
   \<and> Match (\<lambda>m. m) (Sync (NewTopicMap None) (Some [(''payment'', [''a.fn''])])) ''payment''
       = Inr [''a.fn'']
   \<and> Match (\<lambda>m. m) (Sync (NewTopicMap None) (Some [(''payment'', [''a.fn''])])) ''Payment''
       = Inr []"
proof -
  let ?M = "[(''payment'', [''a.fn''])]"
  have w: "wf_gomap ?M"
    by (simp add: wf_gomap_def)
  have v: "range_visits_once (\<lambda>m. m) ?M"
    by (simp add: range_visits_once_def)
  show ?thesis
    using w v Match_default_is_equality [OF w v, of "''payment''"]
      Match_default_is_equality [OF w v, of "''Payment''"]
    by simp
qed

section \<open>Headers of the outbound request\<close>

lemma Header_Values_empty: "Header_Values cn [] N = []"
  by (simp add: Header_Values_def)

lemma Header_Values_Set:
  "Header_Values cn (Header_Set cn h k v) N =
     (if cn N = cn k then [v] else Header_Values cn h N)"
  by (simp add: Header_Values_def Header_Set_def update_conv')

lemma Header_Values_Add:
  "Header_Values cn (Header_Add cn h k v) N =
     Header_Values cn h N @ (if cn N = cn k then [v] else [])"
  by (simp add: Header_Values_def Header_Add_def update_conv')

lemma Header_Values_addValues:
  "Header_Values cn (addValues cn k vs rh) N =
     Header_Values cn rh N @ (if cn N = cn k then vs else [])"
  by (induction vs arbitrary: rh) (simp_all add: Header_Values_Add)

lemma Header_Values_addHeaders:
  "Header_Values cn (addHeaders cn es rh) N =
     Header_Values cn rh N @ concat (map snd (filter (\<lambda>e. cn N = cn (fst e)) es))"
proof (induction es arbitrary: rh)
  case Nil
  show ?case by simp
next
  case (Cons e es)
  obtain k vs where e: "e = (k, vs)" by (cases e)
  show ?case
    by (simp add: e Cons.IH Header_Values_addValues)
qed

lemma Header_Values_buildRequest:
  "Header_Values (canon rt) (reqHeader (buildRequest rt ctx gwURL reader hs)) N =
     (if canon rt N = canon rt ''X-Connector'' then [''connector-sdk''] else [])
     @ concat (map snd (filter (\<lambda>e. canon rt N = canon rt (fst e)) (rangeOrder rt hs)))"
proof -
  have get: "Header_Get (canon rt) [] ''X-Connector'' = []"
    by (simp add: Header_Get_def)
  have "reqHeader (buildRequest rt ctx gwURL reader hs) =
          addHeaders (canon rt) (rangeOrder rt hs)
            (Header_Set (canon rt) [] ''X-Connector'' ''connector-sdk'')"
    by (simp add: buildRequest_def get)
  moreover have "Header_Values (canon rt) (Header_Set (canon rt) [] ''X-Connector'' ''connector-sdk'') N
          = (if canon rt N = canon rt ''X-Connector'' then [''connector-sdk''] else [])"
    by (simp add: Header_Values_Set Header_Values_empty)
  ultimately show ?thesis
    by (simp add: Header_Values_addHeaders)
qed

lemma concat_canonical_key:
  assumes "distinct (map fst es)" and "canonical_keys cn es" and "cn N = N"
  shows "concat (map snd (filter (\<lambda>e. cn N = cn (fst e)) es)) = Header_Values cn es N"
proof -
  have "filter (\<lambda>e. cn N = cn (fst e)) es = filter (\<lambda>e. N = fst e) es"
    using assms(2,3) by (intro filter_cong) (auto simp: canonical_keys_def)
  then show ?thesis
    using concat_equal_key [OF assms(1), of N] assms(3)
    by (simp add: Header_Values_def)
qed

lemma range_canonical_keys:
  assumes "range_visits_once rng m" and "canonical_keys cn m"
  shows "canonical_keys cn (rng m)"
  using assms(2) range_set [OF assms(1)] by (simp add: canonical_keys_def)

lemma Header_Values_range:
  assumes "range_visits_once rng m" and "wf_gomap m"
  shows "Header_Values cn (rng m) N = Header_Values cn m N"
  by (simp add: Header_Values_def range_map_of [OF assms])

text \<open>
  When the keys of the map handed to \<^verbatim>\<open>invoke\<close> are canonical, the request carries
  under a canonical name what the map holds under it, after \<open>connector-sdk\<close> for the
  name \<open>X-Connector\<close>.
\<close>

lemma outbound_values:
  assumes "go_runtime rt" and "wf_gomap hs" and "canonical_keys (canon rt) hs"
      and "canon rt N = N"
  shows "Header_Values (canon rt) (reqHeader (buildRequest rt ctx gwURL reader hs)) N =
           (if N = ''X-Connector'' then [''connector-sdk''] else [])
           @ Header_Values (canon rt) hs N"
proof -
  have v: "range_visits_once (rangeOrder rt) hs"
    using assms(1) by (simp add: go_runtime_def)
  have x: "canon rt ''X-Connector'' = ''X-Connector''"
    using assms(1) by (simp add: go_runtime_def canonical_names_def)
  have "concat (map snd (filter (\<lambda>e. canon rt N = canon rt (fst e)) (rangeOrder rt hs)))
          = Header_Values (canon rt) (rangeOrder rt hs) N"
    using range_distinct_keys [OF v assms(2)] range_canonical_keys [OF v assms(3)] assms(4)
    by (rule concat_canonical_key)
  also have "\<dots> = Header_Values (canon rt) hs N"
    using v assms(2) by (rule Header_Values_range)
  finally show ?thesis
    by (simp add: Header_Values_buildRequest assms(4) x)
qed

lemma wf_Header_Set: "wf_gomap h \<Longrightarrow> wf_gomap (Header_Set cn h k v)"
  by (simp add: wf_gomap_def Header_Set_def distinct_update)

lemma canonical_keys_Header_Set:
  "canonical_keys cn h \<Longrightarrow> cn (cn k) = cn k \<Longrightarrow> canonical_keys cn (Header_Set cn h k v)"
  by (auto simp: canonical_keys_def Header_Set_def dom_update)

lemma ok_headers_Set:
  "ok_headers cn h \<Longrightarrow> cn k = k \<Longrightarrow> ok_headers cn (Header_Set cn h k v)"
  by (simp add: ok_headers_def wf_Header_Set canonical_keys_Header_Set)

lemma ok_headers_prepareHeaders:
  assumes "canonical_names cn" and "callers_headers_ok cn headers"
  shows "ok_headers cn (prepareHeaders cn i os headers)"
proof -
  have h0: "ok_headers cn (case headers of None \<Rightarrow> [] | Some h \<Rightarrow> h)"
    using assms(2)
    by (auto simp: callers_headers_ok_def ok_headers_def wf_gomap_def canonical_keys_def
        split: option.splits)
  have n: "cn ''User-Agent'' = ''User-Agent''" "cn ''X-Topic'' = ''X-Topic''"
    "cn ''X-Callback-Url'' = ''X-Callback-Url''" "cn ''Content-Type'' = ''Content-Type''"
    using assms(1) by (simp_all add: canonical_names_def)
  define h0 where "h0 = (case headers of None \<Rightarrow> [] | Some h \<Rightarrow> h)"
  define h1 where "h1 = (if userAgent (opts i) \<noteq> []
    then Header_Set cn h0 ''User-Agent'' (userAgent (opts i)) else h0)"
  define h2 where "h2 = (if sendTopic (opts i)
    then Header_Set cn h1 ''X-Topic'' (topic os) else h1)"
  define h3 where "h3 = (if InvokeOptions.asyncCallbackURL os \<noteq> []
    then Header_Set cn h2 ''X-Callback-Url'' (InvokeOptions.asyncCallbackURL os)
    else if InvokerOptions.asyncCallbackURL (opts i) \<noteq> []
    then Header_Set cn h2 ''X-Callback-Url'' (InvokerOptions.asyncCallbackURL (opts i))
    else h2)"
  define h4 where "h4 = (if contentType os \<noteq> []
    then Header_Set cn h3 ''Content-Type'' (contentType os)
    else if ContentType i \<noteq> []
    then Header_Set cn h3 ''Content-Type'' (ContentType i)
    else h3)"
  have "ok_headers cn h0"
    using h0 by (simp add: h0_def)
  then have "ok_headers cn h1"
    by (simp add: h1_def ok_headers_Set n)
  then have "ok_headers cn h2"
    by (simp add: h2_def ok_headers_Set n)
  then have "ok_headers cn h3"
    by (simp add: h3_def ok_headers_Set n)
  then have "ok_headers cn h4"
    by (simp add: h4_def ok_headers_Set n)
  moreover have "prepareHeaders cn i os headers = h4"
    by (simp only: prepareHeaders_def Let_def h0_def h1_def h2_def h3_def h4_def)
  ultimately show ?thesis
    by simp
qed

text \<open>What the prepared map holds under the names the invoker sets.\<close>

lemma prepareHeaders_Content_Type:
  assumes "canonical_names cn"
  shows "Header_Values cn (prepareHeaders cn i os headers) ''Content-Type'' =
           (if contentType os \<noteq> [] then [contentType os]
            else if ContentType i \<noteq> [] then [ContentType i]
            else callersValues cn headers ''Content-Type'')"
  using assms
  by (simp add: prepareHeaders_def Let_def Header_Values_Set canonical_names_def
      callersValues_def)

lemma prepareHeaders_Callback_Url:
  assumes "canonical_names cn"
  shows "Header_Values cn (prepareHeaders cn i os headers) ''X-Callback-Url'' =
           (if InvokeOptions.asyncCallbackURL os \<noteq> [] then [InvokeOptions.asyncCallbackURL os]
            else if InvokerOptions.asyncCallbackURL (opts i) \<noteq> []
            then [InvokerOptions.asyncCallbackURL (opts i)]
            else callersValues cn headers ''X-Callback-Url'')"
  using assms
  by (simp add: prepareHeaders_def Let_def Header_Values_Set canonical_names_def
      callersValues_def)

lemma prepareHeaders_Topic:
  assumes "canonical_names cn"
  shows "Header_Values cn (prepareHeaders cn i os headers) ''X-Topic'' =
           (if sendTopic (opts i) then [topic os]
            else callersValues cn headers ''X-Topic'')"
  using assms
  by (simp add: prepareHeaders_def Let_def Header_Values_Set canonical_names_def
      callersValues_def)

lemma prepareHeaders_Connector:
  assumes "canonical_names cn"
  shows "Header_Values cn (prepareHeaders cn i os headers) ''X-Connector'' =
           callersValues cn headers ''X-Connector''"
  using assms
  by (simp add: prepareHeaders_def Let_def Header_Values_Set canonical_names_def
      callersValues_def)

section \<open>What a call of Invoke does\<close>

lemma invoke_Responses:
  "Responses (fst (invoke rt eff ctx gwURL reader hs)) = Responses eff"
  by (simp add: invoke_def Let_def split: option.splits DoResult.splits ReadAll.splits)

lemma invoke_requests:
  assumes "newRequestErr rt gwURL = None"
  shows "requests (fst (invoke rt eff ctx gwURL reader hs))
           = requests eff @ [buildRequest rt ctx gwURL reader hs]"
  using assms
  by (simp add: invoke_def Let_def split: option.splits DoResult.splits ReadAll.splits)

lemma invoke_no_request:
  assumes "newRequestErr rt gwURL = Some e"
  shows "invoke rt eff ctx gwURL reader hs = (eff, None, 503, None, Some e)"
  using assms by (simp add: invoke_def StatusServiceUnavailable_def)

text \<open>
  Unless it panics on the log line, \<^verbatim>\<open>Invoke\<close> returns one result, which is the one
  result it sent on the channel, and it leaves in the caller's map the headers it
  prepared.
\<close>

lemma Invoke_returns:
  assumes "\<not> (PrintRequest i \<and> message = None)"
  shows "\<exists>eff' r. Invoke rt dur i eff ctx functionName message headers optFns
             = Inr (eff', (case headers of None \<Rightarrow> None
                           | Some h \<Rightarrow> Some (prepareHeaders (canon rt) i (applyInvokeOptions optFns) headers)), r)
           \<and> Responses eff' = Responses eff @ [r]
           \<and> requests eff' = requests (fst (invoke rt eff ctx (GatewayURL i @ ''/'' @ functionName)
                 (case message of None \<Rightarrow> [] | Some b \<Rightarrow> b)
                 (prepareHeaders (canon rt) i (applyInvokeOptions optFns) headers)))
           \<and> Function r = functionName \<and> Context r = ctx \<and> Duration r = dur"
proof -
  let ?inv = "invoke rt eff ctx (GatewayURL i @ ''/'' @ functionName)
                 (case message of None \<Rightarrow> [] | Some b \<Rightarrow> b)
                 (prepareHeaders (canon rt) i (applyInvokeOptions optFns) headers)"
  obtain eff1 body statusCode header er where inv: "?inv = (eff1, body, statusCode, header, er)"
    by (cases ?inv)
  have r: "Responses eff1 = Responses eff"
    using invoke_Responses [of rt eff ctx "GatewayURL i @ ''/'' @ functionName"
        "case message of None \<Rightarrow> [] | Some b \<Rightarrow> b"
        "prepareHeaders (canon rt) i (applyInvokeOptions optFns) headers"] inv
    by simp
  show ?thesis
  proof (cases er)
    case None
    then show ?thesis
      using assms inv r by (simp add: Invoke_def Let_def)
  next
    case (Some e)
    then show ?thesis
      using assms inv r by (simp add: Invoke_def Let_def)
  qed
qed

lemma Invoke_sends:
  assumes "\<not> (PrintRequest i \<and> message = None)"
      and "newRequestErr rt (GatewayURL i @ ''/'' @ functionName) = None"
  shows "\<exists>eff' headers' r. Invoke rt dur i eff ctx functionName message headers optFns
             = Inr (eff', headers', r)
           \<and> Responses eff' = Responses eff @ [r]
           \<and> requests eff' = requests eff
               @ [outboundRequest rt i ctx functionName message headers optFns]"
proof -
  from Invoke_returns [OF assms(1), of rt dur eff ctx functionName headers optFns]
  obtain eff' r where
    "Invoke rt dur i eff ctx functionName message headers optFns
       = Inr (eff', (case headers of None \<Rightarrow> None
                     | Some h \<Rightarrow> Some (prepareHeaders (canon rt) i (applyInvokeOptions optFns) headers)), r)"
    and "Responses eff' = Responses eff @ [r]"
    and "requests eff' = requests (fst (invoke rt eff ctx (GatewayURL i @ ''/'' @ functionName)
                 (case message of None \<Rightarrow> [] | Some b \<Rightarrow> b)
                 (prepareHeaders (canon rt) i (applyInvokeOptions optFns) headers)))"
    by blast
  then show ?thesis
    using invoke_requests [OF assms(2)] by (simp add: outboundRequest_def)
qed

text \<open>
  C2. A call of \<^verbatim>\<open>Invoke\<close> that reaches the client (it does not panic on the log
  line and \<^verbatim>\<open>http.NewRequest\<close> accepts the URL) hands it one request and returns
  a result. If the client fails with a cause, or the response body cannot be read
  for a cause, the result has the status 503, an error that wraps the cause, and
  no body. Otherwise the result has the status code of the response, whatever it is,
  the error nil, and the body read.
\<close>

theorem Invoke_status_and_error:
  assumes "\<not> (PrintRequest i \<and> message = None)"
      and "newRequestErr rt (GatewayURL i @ ''/'' @ functionName) = None"
  shows "\<exists>eff' headers' r.
           Invoke rt dur i eff ctx functionName message headers optFns = Inr (eff', headers', r)
           \<and> requests eff' = requests eff
               @ [outboundRequest rt i ctx functionName message headers optFns]
           \<and> (case clientDo rt (outboundRequest rt i ctx functionName message headers optFns) of
                 DoFailed cause \<Rightarrow>
                   Status r = 503 \<and> (\<exists>e. Error r = Some e \<and> wraps e cause) \<and> Body r = None
               | DoOK res \<Rightarrow>
                   (case resBody res of
                      Some (ReadFailed cause) \<Rightarrow>
                        Status r = 503 \<and> (\<exists>e. Error r = Some e \<and> wraps e cause) \<and> Body r = None
                    | Some (ReadOK bytesOut) \<Rightarrow>
                        Status r = resStatusCode res \<and> Error r = None \<and> Body r = Some bytesOut
                    | None \<Rightarrow>
                        Status r = resStatusCode res \<and> Error r = None \<and> Body r = None))"
proof -
  let ?req = "outboundRequest rt i ctx functionName message headers optFns"
  have w: "wraps c c" for c
    by (cases c) simp_all
  show ?thesis
  proof (cases "clientDo rt ?req")
    case (DoFailed cause)
    then show ?thesis
      using assms w [of cause]
      by (simp add: Invoke_def invoke_def Let_def outboundRequest_def
          StatusServiceUnavailable_def)
  next
    case (DoOK res)
    show ?thesis
    proof (cases "resBody res")
      case None
      with DoOK show ?thesis
        using assms
        by (simp add: Invoke_def invoke_def Let_def outboundRequest_def)
    next
      case (Some rd)
      show ?thesis
      proof (cases rd)
        case (ReadOK bytesOut)
        with DoOK Some show ?thesis
          using assms
          by (simp add: Invoke_def invoke_def Let_def outboundRequest_def)
      next
        case (ReadFailed cause)
        with DoOK Some show ?thesis
          using assms w [of cause]
          by (simp add: Invoke_def invoke_def Let_def outboundRequest_def
              StatusServiceUnavailable_def)
      qed
    qed
  qed
qed

lemma stubRuntime_simps:
  "canon (stubRuntime a) = (\<lambda>k. k)" "newRequestErr (stubRuntime a) u = None"
  "clientDo (stubRuntime a) q = a" "rangeOrder (stubRuntime a) = (\<lambda>m. m)"
  by (simp_all add: stubRuntime_def)

lemma fixture_invokers:
  "PrintRequest plainInvoker = False" "PrintRequest forwardingInvoker = False"
  "PrintRequest loggingInvoker = True"
  "GatewayURL plainInvoker = ''http://gw/function''"
  "GatewayURL forwardingInvoker = ''http://gw/function''"
  "ContentType plainInvoker = []" "ContentType forwardingInvoker = []"
  "sendTopic (opts plainInvoker) = False" "sendTopic (opts forwardingInvoker) = True"
  "userAgent (opts plainInvoker) = []" "userAgent (opts forwardingInvoker) = []"
  "InvokerOptions.asyncCallbackURL (opts plainInvoker) = []"
  "InvokerOptions.asyncCallbackURL (opts forwardingInvoker) = []"
  by (simp_all add: plainInvoker_def forwardingInvoker_def loggingInvoker_def NewInvoker_def
      applyInvokerOptions_def WithInvokerSendTopic_def)

theorem Invoke_status_and_error_witness:
  "\<not> (PrintRequest plainInvoker \<and> Some ''hi'' = (None :: string option))
   \<and> newRequestErr (stubRuntime unreachable) (GatewayURL plainInvoker @ ''/'' @ ''fn'') = None
   \<and> newRequestErr (stubRuntime answer404) (GatewayURL plainInvoker @ ''/'' @ ''fn'') = None
   \<and> (\<exists>eff' headers' r.
         Invoke (stubRuntime unreachable) 7 plainInvoker noEffects () ''fn'' (Some ''hi'') None []
           = Inr (eff', headers', r)
         \<and> Status r = 503 \<and> Error r \<noteq> None \<and> Body r = None)
   \<and> (\<exists>eff' headers' r.
         Invoke (stubRuntime answer404) 7 plainInvoker noEffects () ''fn'' (Some ''hi'') None []
           = Inr (eff', headers', r)
         \<and> Status r = 404 \<and> Error r = None \<and> Body r = Some ''not found'')"
proof -
  have p: "\<not> (PrintRequest plainInvoker \<and> Some ''hi'' = (None :: string option))"
    by simp
  have u: "newRequestErr (stubRuntime a) (GatewayURL plainInvoker @ ''/'' @ ''fn'') = None" for a
    by (simp add: stubRuntime_simps)
  from Invoke_status_and_error [OF p u, of unreachable 7 noEffects "()" None "[]"]
  have down: "\<exists>eff' headers' r.
         Invoke (stubRuntime unreachable) 7 plainInvoker noEffects () ''fn'' (Some ''hi'') None []
           = Inr (eff', headers', r)
         \<and> Status r = 503 \<and> Error r \<noteq> None \<and> Body r = None"
    by (auto simp: stubRuntime_simps unreachable_def)
  from Invoke_status_and_error [OF p u, of answer404 7 noEffects "()" None "[]"]
  have up: "\<exists>eff' headers' r.
         Invoke (stubRuntime answer404) 7 plainInvoker noEffects () ''fn'' (Some ''hi'') None []
           = Inr (eff', headers', r)
         \<and> Status r = 404 \<and> Error r = None \<and> Body r = Some ''not found''"
    by (auto simp: stubRuntime_simps answer404_def)
  show ?thesis
    using p u down up by blast
qed

section \<open>The header policy of Invoke\<close>

lemma go_runtime_stub: "go_runtime (stubRuntime a)"
  by (simp add: go_runtime_def canonical_names_def range_visits_once_def stubRuntime_simps)

lemma callers_headers_ok_nil: "callers_headers_ok cn None"
  by (simp add: callers_headers_ok_def)

lemma callersValues_nil: "callersValues cn None key = []"
  by (simp add: callersValues_def Header_Values_def)

lemma outbound_header:
  assumes "go_runtime rt" and "callers_headers_ok (canon rt) headers" and "canon rt N = N"
  shows "Header_Values (canon rt)
           (reqHeader (outboundRequest rt i ctx functionName message headers optFns)) N =
         (if N = ''X-Connector'' then [''connector-sdk''] else [])
         @ Header_Values (canon rt)
             (prepareHeaders (canon rt) i (applyInvokeOptions optFns) headers) N"
proof -
  have "canonical_names (canon rt)"
    using assms(1) by (simp add: go_runtime_def)
  then have "ok_headers (canon rt) (prepareHeaders (canon rt) i (applyInvokeOptions optFns) headers)"
    using assms(2) by (rule ok_headers_prepareHeaders)
  then show ?thesis
    unfolding outboundRequest_def ok_headers_def
    using assms(1,3) by (intro outbound_values) simp_all
qed

text \<open>
  The connector identity: the request always carries \<open>connector-sdk\<close> as the first
  value of \<open>X-Connector\<close>, and the caller's own values after it.
\<close>

lemma outbound_X_Connector:
  assumes "go_runtime rt" and "callers_headers_ok (canon rt) headers"
  shows "Header_Values (canon rt)
           (reqHeader (outboundRequest rt i ctx functionName message headers optFns))
           ''X-Connector''
         = ''connector-sdk'' # callersValues (canon rt) headers ''X-Connector''"
proof -
  have n: "canonical_names (canon rt)"
    using assms(1) by (simp add: go_runtime_def)
  then have "canon rt ''X-Connector'' = ''X-Connector''"
    by (simp add: canonical_names_def)
  from outbound_header [OF assms this] prepareHeaders_Connector [OF n]
  show ?thesis by simp
qed

text \<open>
  What the code sends under \<open>X-Topic\<close>, for a call of \<^verbatim>\<open>Invoke\<close> that reaches the
  client, the caller's header keys being canonical. The one test the code makes is
  of \<^verbatim>\<open>sendTopic\<close>: with forwarding enabled the request carries the topic of the
  call's options as the one value, whether or not that topic is empty; with
  forwarding disabled \<^verbatim>\<open>Invoke\<close> does not set the header, and what the caller's own
  headers hold under it is copied like every other header of the caller.
\<close>

lemma X_Topic_header:
  assumes "go_runtime rt" and "callers_headers_ok (canon rt) headers"
      and "\<not> (PrintRequest i \<and> message = None)"
      and "newRequestErr rt (GatewayURL i @ ''/'' @ functionName) = None"
  shows "\<exists>eff' headers' r.
           Invoke rt dur i eff ctx functionName message headers optFns = Inr (eff', headers', r)
           \<and> requests eff' = requests eff
               @ [outboundRequest rt i ctx functionName message headers optFns]
           \<and> Header_Values (canon rt)
               (reqHeader (outboundRequest rt i ctx functionName message headers optFns))
               ''X-Topic''
             = (if sendTopic (opts i) then [topic (applyInvokeOptions optFns)]
                else callersValues (canon rt) headers ''X-Topic'')"
proof -
  have n: "canonical_names (canon rt)"
    using assms(1) by (simp add: go_runtime_def)
  then have "canon rt ''X-Topic'' = ''X-Topic''"
    by (simp add: canonical_names_def)
  from outbound_header [OF assms(1,2) this] prepareHeaders_Topic [OF n]
  have "Header_Values (canon rt)
          (reqHeader (outboundRequest rt i ctx functionName message headers optFns)) ''X-Topic''
        = (if sendTopic (opts i) then [topic (applyInvokeOptions optFns)]
           else callersValues (canon rt) headers ''X-Topic'')"
    by simp
  then show ?thesis
    using Invoke_sends [OF assms(3,4), of dur eff ctx headers optFns] by blast
qed

lemma topic_WithInvokeTopic:
  "topic (applyInvokeOptions (optFns @ [WithInvokeTopic tp])) = tp"
  by (simp add: applyInvokeOptions_def WithInvokeTopic_def)

text \<open>
  The example of the specification: with forwarding enabled and the topic \<open>orders\<close>
  the request carries \<open>X-Topic: orders\<close>; with forwarding disabled the header is
  absent.
\<close>

lemma X_Topic_header_example:
  "go_runtime (stubRuntime answer200)
   \<and> callers_headers_ok (canon (stubRuntime answer200)) None
   \<and> (\<exists>eff' headers' r.
         Invoke (stubRuntime answer200) 0 forwardingInvoker noEffects () ''proc.fn1''
           (Some ''hi'') None [WithInvokeTopic ''orders''] = Inr (eff', headers', r)
         \<and> map (\<lambda>q. Header_Values (\<lambda>k. k) (reqHeader q) ''X-Topic'') (requests eff')
             = [[''orders'']])
   \<and> (\<exists>eff' headers' r.
         Invoke (stubRuntime answer200) 0 plainInvoker noEffects () ''proc.fn1''
           (Some ''hi'') None [WithInvokeTopic ''orders''] = Inr (eff', headers', r)
         \<and> map (\<lambda>q. Header_Values (\<lambda>k. k) (reqHeader q) ''X-Topic'') (requests eff')
             = [[]])"
proof -
  have g: "go_runtime (stubRuntime answer200)"
    by (rule go_runtime_stub)
  have c: "callers_headers_ok (canon (stubRuntime answer200)) None"
    by (rule callers_headers_ok_nil)
  have p: "\<not> (PrintRequest j \<and> Some ''hi'' = (None :: string option))" for j
    by simp
  have u: "newRequestErr (stubRuntime answer200) (GatewayURL j @ ''/'' @ ''proc.fn1'') = None" for j
    by (simp add: stubRuntime_simps)
  have t: "topic (applyInvokeOptions [WithInvokeTopic ''orders'']) = ''orders''"
    using topic_WithInvokeTopic [of "[]" "''orders''"] by simp
  from X_Topic_header [where rt = "stubRuntime answer200" and headers = None and i = forwardingInvoker
      and message = "Some ''hi''" and functionName = "''proc.fn1''" and dur = 0
      and eff = noEffects and ctx = "()" and optFns = "[WithInvokeTopic ''orders'']",
      OF g c p u]
  have on: "\<exists>eff' headers' r.
         Invoke (stubRuntime answer200) 0 forwardingInvoker noEffects () ''proc.fn1''
           (Some ''hi'') None [WithInvokeTopic ''orders''] = Inr (eff', headers', r)
         \<and> map (\<lambda>q. Header_Values (\<lambda>k. k) (reqHeader q) ''X-Topic'') (requests eff')
             = [[''orders'']]"
    by (auto simp: stubRuntime_simps fixture_invokers t noEffects_def)
  from X_Topic_header [where rt = "stubRuntime answer200" and headers = None and i = plainInvoker
      and message = "Some ''hi''" and functionName = "''proc.fn1''" and dur = 0
      and eff = noEffects and ctx = "()" and optFns = "[WithInvokeTopic ''orders'']",
      OF g c p u]
  have off: "\<exists>eff' headers' r.
         Invoke (stubRuntime answer200) 0 plainInvoker noEffects () ''proc.fn1''
           (Some ''hi'') None [WithInvokeTopic ''orders''] = Inr (eff', headers', r)
         \<and> map (\<lambda>q. Header_Values (\<lambda>k. k) (reqHeader q) ''X-Topic'') (requests eff')
             = [[]]"
    by (auto simp: stubRuntime_simps fixture_invokers callersValues_nil noEffects_def)
  show ?thesis
    using g c on off by blast
qed

text \<open>
  C7, as the code has it. For a call of \<^verbatim>\<open>Invoke\<close> that reaches the client, the
  caller's header keys being canonical: the request carries \<open>Content-Type\<close> with one
  value, the content type of the call's options when that is not empty, else the
  invoker's \<^verbatim>\<open>ContentType\<close> when that is not empty; when both are empty the request
  carries under \<open>Content-Type\<close> what the caller's own headers hold, so the header is
  absent when they hold nothing. The same holds of \<open>X-Callback-Url\<close>, with the
  callback URL of the call's options and then that of the invoker's options.
\<close>

theorem header_override_precedence:
  assumes "go_runtime rt" and "callers_headers_ok (canon rt) headers"
      and "\<not> (PrintRequest i \<and> message = None)"
      and "newRequestErr rt (GatewayURL i @ ''/'' @ functionName) = None"
  shows "\<exists>eff' headers' r.
           Invoke rt dur i eff ctx functionName message headers optFns = Inr (eff', headers', r)
           \<and> requests eff' = requests eff
               @ [outboundRequest rt i ctx functionName message headers optFns]
           \<and> Header_Values (canon rt)
               (reqHeader (outboundRequest rt i ctx functionName message headers optFns))
               ''Content-Type''
             = (if contentType (applyInvokeOptions optFns) \<noteq> []
                then [contentType (applyInvokeOptions optFns)]
                else if ContentType i \<noteq> [] then [ContentType i]
                else callersValues (canon rt) headers ''Content-Type'')
           \<and> Header_Values (canon rt)
               (reqHeader (outboundRequest rt i ctx functionName message headers optFns))
               ''X-Callback-Url''
             = (if InvokeOptions.asyncCallbackURL (applyInvokeOptions optFns) \<noteq> []
                then [InvokeOptions.asyncCallbackURL (applyInvokeOptions optFns)]
                else if InvokerOptions.asyncCallbackURL (opts i) \<noteq> []
                then [InvokerOptions.asyncCallbackURL (opts i)]
                else callersValues (canon rt) headers ''X-Callback-Url'')"
proof -
  have n: "canonical_names (canon rt)"
    using assms(1) by (simp add: go_runtime_def)
  then have ct: "canon rt ''Content-Type'' = ''Content-Type''"
    and cb: "canon rt ''X-Callback-Url'' = ''X-Callback-Url''"
    by (simp_all add: canonical_names_def)
  from outbound_header [OF assms(1,2) ct] prepareHeaders_Content_Type [OF n]
  have 1: "Header_Values (canon rt)
          (reqHeader (outboundRequest rt i ctx functionName message headers optFns))
          ''Content-Type''
        = (if contentType (applyInvokeOptions optFns) \<noteq> []
           then [contentType (applyInvokeOptions optFns)]
           else if ContentType i \<noteq> [] then [ContentType i]
           else callersValues (canon rt) headers ''Content-Type'')"
    by simp
  from outbound_header [OF assms(1,2) cb] prepareHeaders_Callback_Url [OF n]
  have 2: "Header_Values (canon rt)
          (reqHeader (outboundRequest rt i ctx functionName message headers optFns))
          ''X-Callback-Url''
        = (if InvokeOptions.asyncCallbackURL (applyInvokeOptions optFns) \<noteq> []
           then [InvokeOptions.asyncCallbackURL (applyInvokeOptions optFns)]
           else if InvokerOptions.asyncCallbackURL (opts i) \<noteq> []
           then [InvokerOptions.asyncCallbackURL (opts i)]
           else callersValues (canon rt) headers ''X-Callback-Url'')"
    by simp
  show ?thesis
    using Invoke_sends [OF assms(3,4), of dur eff ctx headers optFns] 1 2 by blast
qed

lemmas fixture_defs =
  stubRuntime_def noEffects_def answer200_def answer404_def unreachable_def
  plainInvoker_def forwardingInvoker_def loggingInvoker_def jsonInvoker_def instant_def
  NewInvoker_def applyInvokerOptions_def applyInvokeOptions_def
  WithInvokerSendTopic_def WithInvokerAsyncCallbackURL_def WithInvokerUserAgent_def
  WithInvokeTopic_def WithInvokeAsyncCallbackURL_def WithInvokeContentType_def

lemmas Invoke_defs =
  Invoke_def invoke_def buildRequest_def prepareHeaders_def Let_def
  Header_Get_def Header_Set_def Header_Add_def StatusServiceUnavailable_def

theorem header_override_precedence_witness:
  "go_runtime (stubRuntime answer200)
   \<and> callers_headers_ok (canon (stubRuntime answer200)) None
   \<and> (\<exists>eff' headers' r.
         Invoke (stubRuntime answer200) 0 jsonInvoker noEffects () ''test-function''
           (Some ''text message'') None
           [WithInvokeAsyncCallbackURL ''http://callback-url'', WithInvokeContentType ''plain/text'']
           = Inr (eff', headers', r)
         \<and> map (\<lambda>q. Header_Values (\<lambda>k. k) (reqHeader q) ''Content-Type'') (requests eff')
             = [[''plain/text'']]
         \<and> map (\<lambda>q. Header_Values (\<lambda>k. k) (reqHeader q) ''X-Callback-Url'') (requests eff')
             = [[''http://callback-url'']])
   \<and> (\<exists>eff' headers' r.
         Invoke (stubRuntime answer200) 0 jsonInvoker noEffects () ''test-function''
           (Some ''text message'') None [] = Inr (eff', headers', r)
         \<and> map (\<lambda>q. Header_Values (\<lambda>k. k) (reqHeader q) ''Content-Type'') (requests eff')
             = [[''application/json'']]
         \<and> map (\<lambda>q. Header_Values (\<lambda>k. k) (reqHeader q) ''X-Callback-Url'') (requests eff')
             = [[''http://default-callback'']])
   \<and> (\<exists>eff' headers' r.
         Invoke (stubRuntime answer200) 0 plainInvoker noEffects () ''test-function''
           (Some ''text message'') None [] = Inr (eff', headers', r)
         \<and> map (\<lambda>q. Header_Values (\<lambda>k. k) (reqHeader q) ''Content-Type'') (requests eff')
             = [[]]
         \<and> map (\<lambda>q. Header_Values (\<lambda>k. k) (reqHeader q) ''X-Callback-Url'') (requests eff')
             = [[]])"
proof -
  have g: "go_runtime (stubRuntime answer200)"
    by (rule go_runtime_stub)
  have c: "callers_headers_ok (canon (stubRuntime answer200)) None"
    by (rule callers_headers_ok_nil)
  have p: "\<not> (PrintRequest j \<and> Some ''text message'' = (None :: string option))" for j
    by simp
  have u: "newRequestErr (stubRuntime answer200) (GatewayURL j @ ''/'' @ ''test-function'') = None"
    for j by (simp add: stubRuntime_simps)
  have o1: "contentType (applyInvokeOptions
               [WithInvokeAsyncCallbackURL ''http://callback-url'', WithInvokeContentType ''plain/text''])
             = ''plain/text''"
    "InvokeOptions.asyncCallbackURL (applyInvokeOptions
               [WithInvokeAsyncCallbackURL ''http://callback-url'', WithInvokeContentType ''plain/text''])
             = ''http://callback-url''"
    by (simp_all add: applyInvokeOptions_def WithInvokeAsyncCallbackURL_def
        WithInvokeContentType_def)
  have o2: "contentType (applyInvokeOptions []) = []"
    "InvokeOptions.asyncCallbackURL (applyInvokeOptions []) = []"
    by (simp_all add: applyInvokeOptions_def)
  have j: "ContentType jsonInvoker = ''application/json''"
    "InvokerOptions.asyncCallbackURL (opts jsonInvoker) = ''http://default-callback''"
    by (simp_all add: jsonInvoker_def NewInvoker_def applyInvokerOptions_def
        WithInvokerAsyncCallbackURL_def)
  from header_override_precedence [where rt = "stubRuntime answer200" and headers = None
      and i = jsonInvoker and message = "Some ''text message''"
      and functionName = "''test-function''" and dur = 0 and eff = noEffects and ctx = "()"
      and optFns = "[WithInvokeAsyncCallbackURL ''http://callback-url'',
                     WithInvokeContentType ''plain/text'']",
      OF g c p u]
  have both: "\<exists>eff' headers' r.
         Invoke (stubRuntime answer200) 0 jsonInvoker noEffects () ''test-function''
           (Some ''text message'') None
           [WithInvokeAsyncCallbackURL ''http://callback-url'', WithInvokeContentType ''plain/text'']
           = Inr (eff', headers', r)
         \<and> map (\<lambda>q. Header_Values (\<lambda>k. k) (reqHeader q) ''Content-Type'') (requests eff')
             = [[''plain/text'']]
         \<and> map (\<lambda>q. Header_Values (\<lambda>k. k) (reqHeader q) ''X-Callback-Url'') (requests eff')
             = [[''http://callback-url'']]"
    by (auto simp: stubRuntime_simps o1 noEffects_def)
  from header_override_precedence [where rt = "stubRuntime answer200" and headers = None
      and i = jsonInvoker and message = "Some ''text message''"
      and functionName = "''test-function''" and dur = 0 and eff = noEffects and ctx = "()"
      and optFns = "[]", OF g c p u]
  have dflt: "\<exists>eff' headers' r.
         Invoke (stubRuntime answer200) 0 jsonInvoker noEffects () ''test-function''
           (Some ''text message'') None [] = Inr (eff', headers', r)
         \<and> map (\<lambda>q. Header_Values (\<lambda>k. k) (reqHeader q) ''Content-Type'') (requests eff')
             = [[''application/json'']]
         \<and> map (\<lambda>q. Header_Values (\<lambda>k. k) (reqHeader q) ''X-Callback-Url'') (requests eff')
             = [[''http://default-callback'']]"
    by (auto simp: stubRuntime_simps o2 j noEffects_def)
  from header_override_precedence [where rt = "stubRuntime answer200" and headers = None
      and i = plainInvoker and message = "Some ''text message''"
      and functionName = "''test-function''" and dur = 0 and eff = noEffects and ctx = "()"
      and optFns = "[]", OF g c p u]
  have none: "\<exists>eff' headers' r.
         Invoke (stubRuntime answer200) 0 plainInvoker noEffects () ''test-function''
           (Some ''text message'') None [] = Inr (eff', headers', r)
         \<and> map (\<lambda>q. Header_Values (\<lambda>k. k) (reqHeader q) ''Content-Type'') (requests eff')
             = [[]]
         \<and> map (\<lambda>q. Header_Values (\<lambda>k. k) (reqHeader q) ''X-Callback-Url'') (requests eff')
             = [[]]"
    by (auto simp: stubRuntime_simps o2 fixture_invokers callersValues_nil noEffects_def)
  show ?thesis
    using g c both dflt none by blast
qed

section \<open>Where the code leaves the specification\<close>

text \<open>
  C5. \<^verbatim>\<open>Invoke\<close> sets \<open>X-Topic\<close> under the test \<^verbatim>\<open>if i.opts.sendTopic\<close> alone; it
  does not test the topic, where it sets every other header for a value that is not
  empty only. With topic forwarding enabled and no topic given (no option at all,
  so the topic of the call is the empty string), the request carries an \<open>X-Topic\<close>
  header, whose one value is the empty string: the header is not absent.
\<close>

theorem X_Topic_sent_without_topic:
  "topic (applyInvokeOptions []) = []
   \<and> Invoke (stubRuntime answer200) 0 forwardingInvoker noEffects () ''fn'' (Some ''hi'') None []
     = Inr (\<lparr>Responses =
               [\<lparr>Context = (), Body = Some ''ok'', Header = Some [], Status = 200,
                 Error = None, Topic = [], Function = ''fn'', Duration = 0\<rparr>],
             requests =
               [\<lparr>reqMethod = ''POST'', reqURL = ''http://gw/function/fn'',
                 reqHeader = [(''X-Connector'', [''connector-sdk'']), (''X-Topic'', [[]])],
                 reqBody = ''hi'', reqContext = ()\<rparr>]\<rparr>,
            None,
            \<lparr>Context = (), Body = Some ''ok'', Header = Some [], Status = 200,
              Error = None, Topic = [], Function = ''fn'', Duration = 0\<rparr>)"
  by (simp add: Invoke_defs fixture_defs)

text \<open>
  The same call made by a caller whose headers hold \<open>X-Topic: mine\<close>: the empty
  topic replaces the caller's value, in the request and in the caller's map.
\<close>

lemma X_Topic_of_caller_overwritten:
  "Invoke (stubRuntime answer200) 0 forwardingInvoker noEffects () ''fn'' (Some ''hi'')
       (Some [(''X-Topic'', [''mine''])]) []
     = Inr (\<lparr>Responses =
               [\<lparr>Context = (), Body = Some ''ok'', Header = Some [], Status = 200,
                 Error = None, Topic = [], Function = ''fn'', Duration = 0\<rparr>],
             requests =
               [\<lparr>reqMethod = ''POST'', reqURL = ''http://gw/function/fn'',
                 reqHeader = [(''X-Connector'', [''connector-sdk'']), (''X-Topic'', [[]])],
                 reqBody = ''hi'', reqContext = ()\<rparr>]\<rparr>,
            Some [(''X-Topic'', [[]])],
            \<lparr>Context = (), Body = Some ''ok'', Header = Some [], Status = 200,
              Error = None, Topic = [], Function = ''fn'', Duration = 0\<rparr>)"
  by (simp add: Invoke_defs fixture_defs)

text \<open>
  C7, as the specification has it, fails: with no content type in the call's options
  and none in the invoker, the \<open>Content-Type\<close> the caller put into the headers is
  sent; the header is not absent.
\<close>

theorem Content_Type_of_caller_sent:
  "contentType (applyInvokeOptions []) = [] \<and> ContentType plainInvoker = []
   \<and> Invoke (stubRuntime answer200) 0 plainInvoker noEffects () ''fn'' (Some ''hi'')
       (Some [(''Content-Type'', [''text/xml''])]) []
     = Inr (\<lparr>Responses =
               [\<lparr>Context = (), Body = Some ''ok'', Header = Some [], Status = 200,
                 Error = None, Topic = [], Function = ''fn'', Duration = 0\<rparr>],
             requests =
               [\<lparr>reqMethod = ''POST'', reqURL = ''http://gw/function/fn'',
                 reqHeader = [(''X-Connector'', [''connector-sdk'']),
                              (''Content-Type'', [''text/xml''])],
                 reqBody = ''hi'', reqContext = ()\<rparr>]\<rparr>,
            Some [(''Content-Type'', [''text/xml''])],
            \<lparr>Context = (), Body = Some ''ok'', Header = Some [], Status = 200,
              Error = None, Topic = [], Function = ''fn'', Duration = 0\<rparr>)"
  by (simp add: Invoke_defs fixture_defs)

text \<open>
  C8. The check \<^verbatim>\<open>req.Header.Get("X-Connector") == ""\<close> reads the header of the
  request just made, which is empty, so \<open>connector-sdk\<close> is always set; the caller's
  value is then added after it. A caller that supplies \<open>X-Connector: my-connector\<close>
  sends both values, \<open>connector-sdk\<close> first.
\<close>

theorem X_Connector_of_caller_not_sole_value:
  "Invoke (stubRuntime answer200) 0 plainInvoker noEffects () ''fn'' (Some ''hi'')
       (Some [(''X-Connector'', [''my-connector''])]) []
     = Inr (\<lparr>Responses =
               [\<lparr>Context = (), Body = Some ''ok'', Header = Some [], Status = 200,
                 Error = None, Topic = [], Function = ''fn'', Duration = 0\<rparr>],
             requests =
               [\<lparr>reqMethod = ''POST'', reqURL = ''http://gw/function/fn'',
                 reqHeader = [(''X-Connector'', [''connector-sdk'', ''my-connector''])],
                 reqBody = ''hi'', reqContext = ()\<rparr>]\<rparr>,
            Some [(''X-Connector'', [''my-connector''])],
            \<lparr>Context = (), Body = Some ''ok'', Header = Some [], Status = 200,
              Error = None, Topic = [], Function = ''fn'', Duration = 0\<rparr>)"
  by (simp add: Invoke_defs fixture_defs)

text \<open>
  C3. \<^verbatim>\<open>Invoke\<close> has no check of the payload: on an empty payload, and on a nil one,
  it posts an empty body to the gateway and returns the answer (here 404) with the
  error nil. \<^verbatim>\<open>InvokeWithTopic\<close> publishes the error for an empty payload without
  a request, but panics on a nil one.
\<close>

theorem empty_payload_is_posted:
  "Invoke (stubRuntime answer404) 0 plainInvoker noEffects () ''test-function'' (Some [])
       (Some []) []
     = Inr (\<lparr>Responses =
               [\<lparr>Context = (), Body = Some ''not found'', Header = Some [], Status = 404,
                 Error = None, Topic = [], Function = ''test-function'', Duration = 0\<rparr>],
             requests =
               [\<lparr>reqMethod = ''POST'', reqURL = ''http://gw/function/test-function'',
                 reqHeader = [(''X-Connector'', [''connector-sdk''])],
                 reqBody = [], reqContext = ()\<rparr>]\<rparr>,
            Some [],
            \<lparr>Context = (), Body = Some ''not found'', Header = Some [], Status = 404,
              Error = None, Topic = [], Function = ''test-function'', Duration = 0\<rparr>)
   \<and> Invoke (stubRuntime answer404) 0 plainInvoker noEffects () ''test-function'' None
       (Some []) []
     = Inr (\<lparr>Responses =
               [\<lparr>Context = (), Body = Some ''not found'', Header = Some [], Status = 404,
                 Error = None, Topic = [], Function = ''test-function'', Duration = 0\<rparr>],
             requests =
               [\<lparr>reqMethod = ''POST'', reqURL = ''http://gw/function/test-function'',
                 reqHeader = [(''X-Connector'', [''connector-sdk''])],
                 reqBody = [], reqContext = ()\<rparr>]\<rparr>,
            Some [],
            \<lparr>Context = (), Body = Some ''not found'', Header = Some [], Status = 404,
              Error = None, Topic = [], Function = ''test-function'', Duration = 0\<rparr>)
   \<and> InvokeWithTopic (stubRuntime answer404) instant plainInvoker noEffects ()
       (Some (Sync (NewTopicMap None) (Some [(''test-topic'', [''test-function''])])))
       ''test-topic'' (Some []) (Some []) []
     = Inr \<lparr>Responses =
              [\<lparr>Context = (), Body = None, Header = None, Status = 0,
                Error = Some NoMessageToSend, Topic = [], Function = [], Duration = 0\<rparr>],
            requests = []\<rparr>
   \<and> InvokeWithTopic (stubRuntime answer404) instant plainInvoker noEffects ()
       (Some (Sync (NewTopicMap None) (Some [(''test-topic'', [''test-function''])])))
       ''test-topic'' None (Some []) []
     = Inl NilPointerDereference"
  by (simp add: Invoke_defs fixture_defs InvokeWithTopic_def)

text \<open>
  Against a server that drops the connection, as the server of the repository's
  test of the empty payload does (its handler is nil), the request is sent all the
  same, and the error of the result is the one of the transport, with the status
  503; it is not the error of a missing payload.
\<close>

lemma empty_payload_is_posted_to_failing_server:
  "Invoke (stubRuntime (DoFailed (External ''EOF''))) 0 plainInvoker noEffects ()
       ''test-function'' (Some []) (Some []) []
     = Inr (\<lparr>Responses =
               [\<lparr>Context = (), Body = None, Header = None, Status = 503,
                 Error = Some (UnableToInvoke ''test-function''
                           (UnableToReach ''http://gw/function/test-function'' (External ''EOF''))),
                 Topic = [], Function = ''test-function'', Duration = 0\<rparr>],
             requests =
               [\<lparr>reqMethod = ''POST'', reqURL = ''http://gw/function/test-function'',
                 reqHeader = [(''X-Connector'', [''connector-sdk''])],
                 reqBody = [], reqContext = ()\<rparr>]\<rparr>,
            Some [],
            \<lparr>Context = (), Body = None, Header = None, Status = 503,
              Error = Some (UnableToInvoke ''test-function''
                        (UnableToReach ''http://gw/function/test-function'' (External ''EOF''))),
              Topic = [], Function = ''test-function'', Duration = 0\<rparr>)"
  by (simp add: Invoke_defs fixture_defs)

text \<open>
  C6. With \<^verbatim>\<open>PrintRequest\<close> set and a nil payload, \<^verbatim>\<open>Invoke\<close> panics on the log
  line: no result is sent and none is returned.
\<close>

theorem Invoke_panics_logging_nil_payload:
  "Invoke (stubRuntime answer200) 0 loggingInvoker noEffects () ''fn'' None None []
     = Inl NilPointerDereference"
  by (simp add: Invoke_defs fixture_defs)

text \<open>
  C10. With a nil topic map and a nil payload, \<^verbatim>\<open>InvokeWithTopic\<close> panics on
  \<^verbatim>\<open>len(*message)\<close>, before it tests the topic map: no result is published.
\<close>

theorem InvokeWithTopic_panics_nil_payload:
  "InvokeWithTopic (stubRuntime answer200) instant plainInvoker noEffects () None ''t'' None
       None []
     = Inl NilPointerDereference"
  by (simp add: InvokeWithTopic_def)

text \<open>
  Outside these inputs the two entry points do what C6 and C10 say: see
  \<open>Invoke_returns\<close> above for \<^verbatim>\<open>Invoke\<close>; for \<^verbatim>\<open>InvokeWithTopic\<close>, a nil topic map
  with a payload that is not nil, empty or not, publishes the one result with the
  error and issues no request.
\<close>

lemma InvokeWithTopic_nil_topicMap:
  "InvokeWithTopic rt durs i eff ctx None tp (Some b) headers optFns
     = Inr (eff\<lparr>Responses := Responses eff @
               [\<lparr>Context = ctx, Body = None, Header = None, Status = 0,
                 Error = Some NoMessageToSend, Topic = [], Function = [], Duration = 0\<rparr>]\<rparr>)"
  by (simp add: InvokeWithTopic_def)

lemma InvokeWithTopic_empty_payload:
  "InvokeWithTopic rt durs i eff ctx topicMap tp (Some []) headers optFns
     = Inr (eff\<lparr>Responses := Responses eff @
               [\<lparr>Context = ctx, Body = None, Header = None, Status = 0,
                 Error = Some NoMessageToSend, Topic = [], Function = [], Duration = 0\<rparr>]\<rparr>)"
  by (simp add: InvokeWithTopic_def)

text \<open>
  Why the caller's keys are taken to be canonical: a key written into the map in
  another spelling stays beside the canonical key that \<^verbatim>\<open>Set\<close> writes, and the copy
  loop of \<^verbatim>\<open>invoke\<close> adds the values of both under the canonical name.
\<close>

lemma noncanonical_key_is_merged:
  "Invoke foldingRuntime 0 plainInvoker noEffects () ''fn'' (Some ''hi'')
       (Some [(''content-type'', [''text/xml''])]) [WithInvokeContentType ''plain/text'']
     = Inr (\<lparr>Responses =
               [\<lparr>Context = (), Body = Some ''ok'', Header = Some [], Status = 200,
                 Error = None, Topic = [], Function = ''fn'', Duration = 0\<rparr>],
             requests =
               [\<lparr>reqMethod = ''POST'', reqURL = ''http://gw/function/fn'',
                 reqHeader = [(''X-Connector'', [''connector-sdk'']),
                              (''Content-Type'', [''text/xml'', ''plain/text''])],
                 reqBody = ''hi'', reqContext = ()\<rparr>]\<rparr>,
            Some [(''content-type'', [''text/xml'']), (''Content-Type'', [''plain/text''])],
            \<lparr>Context = (), Body = Some ''ok'', Header = Some [], Status = 200,
              Error = None, Topic = [], Function = ''fn'', Duration = 0\<rparr>)"
  by (simp add: Invoke_defs fixture_defs foldingRuntime_def)

end
